theory Spec2Isabelle
  imports Complex_Main
begin

section \<open>The load board of app.py: data model\<close>

text \<open>
  The tables \<^verbatim>\<open>users\<close>, \<^verbatim>\<open>loads\<close> and \<^verbatim>\<open>bids\<close> of \<^verbatim>\<open>init_db\<close>. The
  three \<^verbatim>\<open>CHECK(... IN (...))\<close> columns are enumerations. Of a load only the columns that
  the bid and status handlers read or write are kept (\<^verbatim>\<open>id\<close>, \<^verbatim>\<open>shipper_id\<close>,
  \<^verbatim>\<open>status\<close>, \<^verbatim>\<open>trucker_id\<close>); the descriptive columns (title, cities, dates,
  weight, rate, notes) are written by \<^verbatim>\<open>new_load\<close> only. Identifiers are the
  non-negative integers of \<^verbatim>\<open>INTEGER PRIMARY KEY AUTOINCREMENT\<close> and of the
  \<^verbatim>\<open><int:...>\<close> URL converter. \<^verbatim>\<open>trucker_id\<close> of a load is nullable.
\<close>

datatype role = Shipper | Trucker | Admin

datatype load_status = Open | Assigned | In_transit | Delivered | Cancelled

datatype bid_status = Pending | Accepted | Rejected

record load_row =
  load_id :: nat
  shipper_id :: nat
  load_status :: load_status
  trucker_id :: "nat option"

text \<open>
  \<^verbatim>\<open>amount REAL NOT NULL\<close>: the amount is the number \<^verbatim>\<open>sanitize_numeric\<close> parsed
  (a finite one here). \<^verbatim>\<open>message\<close> is nullable.
\<close>

record bid_row =
  bid_id :: nat
  bid_load_id :: nat
  bid_trucker_id :: nat
  amount :: real
  message :: "string option"
  bid_status :: bid_status

text \<open>
  The database: the rows of each table in insertion order, and the entry of
  \<^verbatim>\<open>sqlite_sequence\<close> for \<^verbatim>\<open>bids\<close> (the largest row id AUTOINCREMENT has handed out).
\<close>

record db =
  loads :: "load_row list"
  bids :: "bid_row list"
  bids_seq :: nat

text \<open>
  The Flask session after \<^verbatim>\<open>login\<close> holds \<^verbatim>\<open>user_id\<close> and \<^verbatim>\<open>role\<close>; after
  \<^verbatim>\<open>logout\<close> (or before any login) it is empty.
\<close>

record session_data =
  user_id :: nat
  role :: role

type_synonym session = "session_data option"

text \<open>
  What a handler answers: the redirect to the login page of \<^verbatim>\<open>login_required\<close> and
  \<^verbatim>\<open>role_required\<close>, \<^verbatim>\<open>abort(code)\<close>, or a flashed message followed by the redirect to
  the load's page.
\<close>

datatype response = Login_redirect | Abort nat | Flash_redirect string

section \<open>SQL statements\<close>

text \<open>\<^verbatim>\<open>SELECT ... WHERE p\<close> followed by \<^verbatim>\<open>fetchone()\<close>: the first matching row.\<close>

definition fetchone :: "('r \<Rightarrow> bool) \<Rightarrow> 'r list \<Rightarrow> 'r option" where
  "fetchone p rows = find p rows"

text \<open>\<^verbatim>\<open>UPDATE t SET ... WHERE p\<close>: every matching row is rewritten, the others are kept.\<close>

definition update_where :: "('r \<Rightarrow> bool) \<Rightarrow> ('r \<Rightarrow> 'r) \<Rightarrow> 'r list \<Rightarrow> 'r list" where
  "update_where p f rows = map (\<lambda>r. if p r then f r else r) rows"

definition fetch_bid :: "db \<Rightarrow> nat \<Rightarrow> bid_row option" where
  "fetch_bid d i = fetchone (\<lambda>r. bid_id r = i) (bids d)"

definition fetch_load :: "db \<Rightarrow> nat \<Rightarrow> load_row option" where
  "fetch_load d i = fetchone (\<lambda>l. load_id l = i) (loads d)"

text \<open>
  \<^verbatim>\<open>SELECT b.*, l.shipper_id FROM bids b JOIN loads l ON l.id=b.load_id WHERE b.id=?\<close>:
  an inner join, so a bid whose load row is missing yields no row.
\<close>

definition bid_with_shipper :: "db \<Rightarrow> nat \<Rightarrow> (bid_row \<times> nat) option" where
  "bid_with_shipper d i =
     (case fetch_bid d i of
        None \<Rightarrow> None
      | Some b \<Rightarrow>
          (case fetch_load d (bid_load_id b) of
             None \<Rightarrow> None
           | Some l \<Rightarrow> Some (b, shipper_id l)))"

text \<open>
  AUTOINCREMENT: the new row id is one more than the largest row id the table has ever
  held, that is the larger of the \<^verbatim>\<open>sqlite_sequence\<close> entry and the ids present.
\<close>

definition next_rowid :: "nat \<Rightarrow> nat list \<Rightarrow> nat" where
  "next_rowid seq ids = Suc (fold max ids seq)"

text \<open>
  \<^verbatim>\<open>INSERT INTO bids(load_id,trucker_id,amount,message) VALUES(?,?,?,?)\<close>: the status
  takes its default \<^verbatim>\<open>'pending'\<close>. The request's connection comes from \<^verbatim>\<open>get_db\<close>,
  which does not issue \<^verbatim>\<open>PRAGMA foreign_keys=ON\<close> (only \<^verbatim>\<open>init_db\<close> does, on its own
  connection), so the insert does not look the load up.
\<close>

definition insert_bid :: "nat \<Rightarrow> nat \<Rightarrow> real \<Rightarrow> string option \<Rightarrow> db \<Rightarrow> db" where
  "insert_bid l t a m d =
     (let i = next_rowid (bids_seq d) (map bid_id (bids d))
      in d\<lparr>bids := bids d @
               [\<lparr>bid_id = i, bid_load_id = l, bid_trucker_id = t, amount = a,
                 message = m, bid_status = Pending\<rparr>],
           bids_seq := i\<rparr>)"

section \<open>The handlers\<close>

text \<open>
  \<^verbatim>\<open>place_bid\<close>, behind \<^verbatim>\<open>@role_required("trucker")\<close>: an empty session is sent to
  the login page, a role other than trucker or admin gets 403. The amount is what
  \<^verbatim>\<open>sanitize_numeric\<close> made of the form field (\<open>None\<close> when it does not parse).
\<close>

definition place_bid ::
  "session \<Rightarrow> nat \<Rightarrow> real option \<Rightarrow> string option \<Rightarrow> db \<Rightarrow> response \<times> db" where
  "place_bid s l amt msg d =
     (case s of
        None \<Rightarrow> (Login_redirect, d)
      | Some u \<Rightarrow>
          if role u \<noteq> Trucker \<and> role u \<noteq> Admin then (Abort 403, d)
          else
            (case amt of
               None \<Rightarrow> (Flash_redirect ''Enter a valid bid amount.'', d)
             | Some a \<Rightarrow>
                 if a \<le> 0 then (Flash_redirect ''Enter a valid bid amount.'', d)
                 else
                   (case fetchone (\<lambda>r. bid_load_id r = l \<and> bid_trucker_id r = user_id u
                                        \<and> bid_status r = Pending) (bids d) of
                      Some existing \<Rightarrow>
                        (Flash_redirect ''You already have a pending bid on this load.'', d)
                    | None \<Rightarrow>
                        (Flash_redirect ''Bid submitted.'', insert_bid l (user_id u) a msg d))))"

text \<open>
  \<^verbatim>\<open>accept_bid\<close>, behind \<^verbatim>\<open>@login_required\<close>: three \<^verbatim>\<open>UPDATE\<close> statements in the
  source's order, then the commit.
\<close>

definition accept_bid :: "session \<Rightarrow> nat \<Rightarrow> db \<Rightarrow> response \<times> db" where
  "accept_bid s i d =
     (case s of
        None \<Rightarrow> (Login_redirect, d)
      | Some u \<Rightarrow>
          (case bid_with_shipper d i of
             None \<Rightarrow> (Abort 404, d)
           | Some (b, sh) \<Rightarrow>
               if user_id u \<noteq> sh \<and> role u \<noteq> Admin then (Abort 403, d)
               else
                 (let d1 = d\<lparr>bids := update_where (\<lambda>r. bid_id r = i)
                                         (\<lambda>r. r\<lparr>bid_status := Accepted\<rparr>) (bids d)\<rparr>;
                      d2 = d1\<lparr>bids := update_where
                                          (\<lambda>r. bid_load_id r = bid_load_id b \<and> bid_id r \<noteq> i)
                                          (\<lambda>r. r\<lparr>bid_status := Rejected\<rparr>) (bids d1)\<rparr>;
                      d3 = d2\<lparr>loads := update_where (\<lambda>l. load_id l = bid_load_id b)
                                           (\<lambda>l. l\<lparr>load_status := Assigned,
                                                   trucker_id := Some (bid_trucker_id b)\<rparr>)
                                           (loads d2)\<rparr>
                  in (Flash_redirect ''Bid accepted and load assigned.'', d3))))"

text \<open>\<^verbatim>\<open>reject_bid\<close>, behind \<^verbatim>\<open>@login_required\<close>: one \<^verbatim>\<open>UPDATE\<close>.\<close>

definition reject_bid :: "session \<Rightarrow> nat \<Rightarrow> db \<Rightarrow> response \<times> db" where
  "reject_bid s i d =
     (case s of
        None \<Rightarrow> (Login_redirect, d)
      | Some u \<Rightarrow>
          (case bid_with_shipper d i of
             None \<Rightarrow> (Abort 404, d)
           | Some (b, sh) \<Rightarrow>
               if user_id u \<noteq> sh \<and> role u \<noteq> Admin then (Abort 403, d)
               else
                 (Flash_redirect ''Bid rejected.'',
                  d\<lparr>bids := update_where (\<lambda>r. bid_id r = i)
                                (\<lambda>r. r\<lparr>bid_status := Rejected\<rparr>) (bids d)\<rparr>)))"

text \<open>
  The \<^verbatim>\<open><status>\<close> segment of the URL is a string. \<open>parse_status\<close> is the membership
  test \<^verbatim>\<open>status not in ("open","assigned","in_transit","delivered","cancelled")\<close>
  (\<open>None\<close> when the test fails) together with the value the column then stores.
\<close>

definition parse_status :: "string \<Rightarrow> load_status option" where
  "parse_status name =
     (if name = ''open'' then Some Open
      else if name = ''assigned'' then Some Assigned
      else if name = ''in_transit'' then Some In_transit
      else if name = ''delivered'' then Some Delivered
      else if name = ''cancelled'' then Some Cancelled
      else None)"

text \<open>
  \<^verbatim>\<open>update_status\<close>, behind \<^verbatim>\<open>@login_required\<close>: the name is tested before the load
  is looked up; the \<^verbatim>\<open>UPDATE\<close> sets the status column only.
\<close>

definition update_status :: "session \<Rightarrow> nat \<Rightarrow> string \<Rightarrow> db \<Rightarrow> response \<times> db" where
  "update_status s l name d =
     (case s of
        None \<Rightarrow> (Login_redirect, d)
      | Some u \<Rightarrow>
          (case parse_status name of
             None \<Rightarrow> (Abort 400, d)
           | Some st \<Rightarrow>
               (case fetch_load d l of
                  None \<Rightarrow> (Abort 404, d)
                | Some row \<Rightarrow>
                    if user_id u \<noteq> shipper_id row \<and> role u \<noteq> Admin then (Abort 403, d)
                    else
                      (Flash_redirect (''Status updated to '' @ name @ ''.''),
                       d\<lparr>loads := update_where (\<lambda>r. load_id r = l)
                                      (\<lambda>r. r\<lparr>load_status := st\<rparr>) (loads d)\<rparr>))))"

section \<open>Sequences of requests\<close>

text \<open>
  A request to one of the four handlers, with the session it is made under; \<open>run\<close>
  serves a list of them one after the other.
\<close>

datatype request =
    Place_bid nat "real option" "string option"
  | Accept_bid nat
  | Reject_bid nat
  | Update_status nat string

fun handle :: "session \<Rightarrow> request \<Rightarrow> db \<Rightarrow> response \<times> db" where
  "handle s (Place_bid l amt msg) d = place_bid s l amt msg d"
| "handle s (Accept_bid i) d = accept_bid s i d"
| "handle s (Reject_bid i) d = reject_bid s i d"
| "handle s (Update_status l name) d = update_status s l name d"

fun run :: "(session \<times> request) list \<Rightarrow> db \<Rightarrow> db" where
  "run [] d = d"
| "run ((s, q) # rest) d = run rest (snd (handle s q d))"

section \<open>Invariants\<close>

text \<open>The primary keys: no two rows of a table share an id.\<close>

definition pk_ok :: "db \<Rightarrow> bool" where
  "pk_ok d = (distinct (map bid_id (bids d)) \<and> distinct (map load_id (loads d)))"

text \<open>The statuses under which the spec wants a load to have an assigned bidder.\<close>

definition has_assignee_status :: "load_status \<Rightarrow> bool" where
  "has_assignee_status st = (st = Assigned \<or> st = In_transit \<or> st = Delivered)"

definition assignee_inv :: "load_row \<Rightarrow> bool" where
  "assignee_inv l = ((trucker_id l \<noteq> None) = has_assignee_status (load_status l))"

definition assignee_inv_db :: "db \<Rightarrow> bool" where
  "assignee_inv_db d = list_all assignee_inv (loads d)"

text \<open>The number of pending bids of a (load, bidder) pair, and of accepted bids of a load.\<close>

definition pending_count :: "db \<Rightarrow> nat \<Rightarrow> nat \<Rightarrow> nat" where
  "pending_count d l t =
     length (filter (\<lambda>r. bid_load_id r = l \<and> bid_trucker_id r = t \<and> bid_status r = Pending)
               (bids d))"

definition one_pending :: "db \<Rightarrow> bool" where
  "one_pending d =
     list_all (\<lambda>r. pending_count d (bid_load_id r) (bid_trucker_id r) \<le> 1) (bids d)"

definition accepted_count :: "db \<Rightarrow> nat \<Rightarrow> nat" where
  "accepted_count d l =
     length (filter (\<lambda>r. bid_load_id r = l \<and> bid_status r = Accepted) (bids d))"

text \<open>
  Every accepted bid is the only accepted bid of its load, and each row of that load
  names the bid's trucker.
\<close>

definition accepted_inv :: "db \<Rightarrow> bool" where
  "accepted_inv d =
     list_all (\<lambda>r. bid_status r \<noteq> Accepted \<or>
                 (accepted_count d (bid_load_id r) \<le> 1 \<and>
                  list_all (\<lambda>l. load_id l \<noteq> bid_load_id r \<or>
                                 trucker_id l = Some (bid_trucker_id r)) (loads d)))
       (bids d)"

section \<open>The scenario of the specification\<close>

text \<open>
  Shipper 1 owns load 1; truckers 2 and 3 have bid 500 and 450 on it; user 4 is another
  trucker, user 9 an administrator.
\<close>

definition shipper1 :: session_data where
  "shipper1 = \<lparr>user_id = 1, role = Shipper\<rparr>"

definition trucker2 :: session_data where
  "trucker2 = \<lparr>user_id = 2, role = Trucker\<rparr>"

definition trucker4 :: session_data where
  "trucker4 = \<lparr>user_id = 4, role = Trucker\<rparr>"

definition admin9 :: session_data where
  "admin9 = \<lparr>user_id = 9, role = Admin\<rparr>"

definition bid1 :: bid_row where
  "bid1 = \<lparr>bid_id = 1, bid_load_id = 1, bid_trucker_id = 2, amount = 500,
            message = None, bid_status = Pending\<rparr>"

definition bid2 :: bid_row where
  "bid2 = \<lparr>bid_id = 2, bid_load_id = 1, bid_trucker_id = 3, amount = 450,
            message = None, bid_status = Pending\<rparr>"

definition load1 :: load_row where
  "load1 = \<lparr>load_id = 1, shipper_id = 1, load_status = Open, trucker_id = None\<rparr>"

definition db_open :: db where
  "db_open = \<lparr>loads = [load1], bids = [bid1, bid2], bids_seq = 2\<rparr>"

text \<open>The same load after bid 1 was accepted, and after it was then delivered.\<close>

definition db_assigned :: db where
  "db_assigned =
     \<lparr>loads = [load1\<lparr>load_status := Assigned, trucker_id := Some 2\<rparr>],
      bids = [bid1\<lparr>bid_status := Accepted\<rparr>, bid2\<lparr>bid_status := Rejected\<rparr>],
      bids_seq = 2\<rparr>"

definition db_delivered :: db where
  "db_delivered =
     \<lparr>loads = [load1\<lparr>load_status := Delivered, trucker_id := Some 2\<rparr>],
      bids = [bid1\<lparr>bid_status := Accepted\<rparr>, bid2\<lparr>bid_status := Rejected\<rparr>],
      bids_seq = 2\<rparr>"

section \<open>Auxiliary definitions\<close>

text \<open>
  What the first two \<^verbatim>\<open>UPDATE\<close> statements of \<^verbatim>\<open>accept_bid\<close> do to one row of
  \<^verbatim>\<open>bids\<close> when run one after the other (\<open>accept_updates_rows\<close> below proves it).
\<close>

definition accept_row :: "nat \<Rightarrow> nat \<Rightarrow> bid_row \<Rightarrow> bid_row" where
  "accept_row i l r = (if bid_id r = i then r\<lparr>bid_status := Accepted\<rparr>
       else if bid_load_id r = l then r\<lparr>bid_status := Rejected\<rparr> else r)"

lemmas scenario_defs = db_open_def db_assigned_def db_delivered_def bid1_def bid2_def load1_def
  shipper1_def trucker2_def trucker4_def admin9_def

section \<open>Rows and keys\<close>

lemma fetchone_SomeD: "fetchone p rows = Some x \<Longrightarrow> x \<in> set rows \<and> p x"
  unfolding fetchone_def by (induction rows) (auto split: if_splits)

lemma fetchone_None_iff: "fetchone p rows = None \<longleftrightarrow> (\<forall>x\<in>set rows. \<not> p x)"
  unfolding fetchone_def by (auto simp: find_None_iff)

lemma fetchone_key_map:
  assumes "\<And>r. key (g r) = key r"
  shows "fetchone (\<lambda>r. key r = k) (map g rows) = map_option g (fetchone (\<lambda>r. key r = k) rows)"
  unfolding fetchone_def using assms by (induction rows) auto

lemma fetchone_key_distinct:
  "distinct (map key rows) \<Longrightarrow> x \<in> set rows \<Longrightarrow> fetchone (\<lambda>r. key r = key x) rows = Some x"
  unfolding fetchone_def
proof (induction rows)
  case Nil
  then show ?case by simp
next
  case (Cons a rows)
  then show ?case by (auto simp: image_iff)
qed

lemma key_unique:
  "distinct (map key rows) \<Longrightarrow> fetchone (\<lambda>r. key r = k) rows = Some b \<Longrightarrow> r \<in> set rows \<Longrightarrow> key r = k \<Longrightarrow> r = b"
  using fetchone_key_distinct[of key rows r] by simp

lemma count_key_le_1:
  "distinct (map key rows) \<Longrightarrow> length (filter (\<lambda>r. key r = k) rows) \<le> Suc 0"
proof (induction rows)
  case Nil
  then show ?case by simp
next
  case (Cons a rows)
  have "key a = k \<Longrightarrow> filter (\<lambda>r. key r = k) rows = []"
    using Cons.prems by (auto simp: filter_empty_conv image_iff)
  with Cons show ?case by auto
qed

lemma next_rowid_fresh: "i \<in> set ids \<Longrightarrow> i < next_rowid seq ids"
proof -
  have "\<And>seq. seq \<le> fold max ids seq \<and> (\<forall>i\<in>set ids. i \<le> fold max ids seq)"
  proof (induction ids)
    case Nil
    show ?case by simp
  next
    case (Cons a ids)
    have "max a seq \<le> fold max ids (max a seq)" using Cons by blast
    moreover have "\<forall>i\<in>set ids. i \<le> fold max ids (max a seq)" using Cons by blast
    ultimately show ?case by auto
  qed
  then show "i \<in> set ids \<Longrightarrow> i < next_rowid seq ids"
    unfolding next_rowid_def by (simp add: less_Suc_eq_le)
qed

lemma accept_updates_rows:
  "update_where (\<lambda>r. bid_load_id r = l \<and> bid_id r \<noteq> i) (\<lambda>r. r\<lparr>bid_status := Rejected\<rparr>)
     (update_where (\<lambda>r. bid_id r = i) (\<lambda>r. r\<lparr>bid_status := Accepted\<rparr>) rows)
   = map (accept_row i l) rows"
  unfolding update_where_def accept_row_def by (induction rows) auto

lemma accept_bid_success:
  assumes "fetch_bid d i = Some b" "fetch_load d (bid_load_id b) = Some l"
    "user_id u = shipper_id l \<or> role u = Admin"
  shows "accept_bid (Some u) i d =
     (Flash_redirect ''Bid accepted and load assigned.'',
      d\<lparr>bids := map (accept_row i (bid_load_id b)) (bids d),
        loads := update_where (\<lambda>l. load_id l = bid_load_id b)
                   (\<lambda>l. l\<lparr>load_status := Assigned, trucker_id := Some (bid_trucker_id b)\<rparr>) (loads d)\<rparr>)"
  using assms unfolding accept_bid_def bid_with_shipper_def
  by (auto simp: Let_def accept_updates_rows)


lemma fetchone_key_update:
  assumes "\<And>r. key (f r) = key r"
  shows "fetchone (\<lambda>r. key r = k) (update_where p f rows)
       = map_option (\<lambda>r. if p r then f r else r) (fetchone (\<lambda>r. key r = k) rows)"
  unfolding update_where_def using assms by (intro fetchone_key_map) simp

lemma accept_row_id [simp]: "bid_id (accept_row i l r) = bid_id r"
  by (simp add: accept_row_def)

lemma accept_bid_effect:
  assumes pk: "pk_ok d"
    and b: "fetch_bid d i = Some b"
    and l: "fetch_load d (bid_load_id b) = Some l"
    and auth: "user_id u = shipper_id l \<or> role u = Admin"
    and res: "accept_bid (Some u) i d = (resp, d')"
  shows "resp = Flash_redirect ''Bid accepted and load assigned.''
     \<and> fetch_bid d' i = Some (b\<lparr>bid_status := Accepted\<rparr>)
     \<and> (\<forall>r\<in>set (bids d). bid_id r \<noteq> i \<and> bid_load_id r = bid_load_id b \<longrightarrow>
            fetch_bid d' (bid_id r) = Some (r\<lparr>bid_status := Rejected\<rparr>))
     \<and> (\<forall>r\<in>set (bids d). bid_load_id r \<noteq> bid_load_id b \<longrightarrow> fetch_bid d' (bid_id r) = Some r)
     \<and> map bid_id (bids d') = map bid_id (bids d)
     \<and> fetch_load d' (bid_load_id b)
         = Some (l\<lparr>load_status := Assigned, trucker_id := Some (bid_trucker_id b)\<rparr>)
     \<and> (\<forall>l'\<in>set (loads d). load_id l' \<noteq> bid_load_id b \<longrightarrow> fetch_load d' (load_id l') = Some l')
     \<and> map load_id (loads d') = map load_id (loads d)
     \<and> bids_seq d' = bids_seq d"
proof -
  let ?L = "bid_load_id b"
  let ?set = "\<lambda>l. l\<lparr>load_status := Assigned, trucker_id := Some (bid_trucker_id b)\<rparr>"
  from accept_bid_success[OF b l auth] res
  have resp: "resp = Flash_redirect ''Bid accepted and load assigned.''"
    and d': "d' = d\<lparr>bids := map (accept_row i ?L) (bids d),
                     loads := update_where (\<lambda>l. load_id l = ?L) ?set (loads d)\<rparr>"
    by simp_all
  have bi: "bid_id b = i" and bmem: "b \<in> set (bids d)"
    using fetchone_SomeD[OF b[unfolded fetch_bid_def]] by simp_all
  have lid: "load_id l = ?L"
    using fetchone_SomeD[OF l[unfolded fetch_load_def]] by simp
  have dB: "distinct (map bid_id (bids d))" and dL: "distinct (map load_id (loads d))"
    using pk by (simp_all add: pk_ok_def)
  have fb: "fetch_bid d' j = map_option (accept_row i ?L) (fetch_bid d j)" for j
    unfolding fetch_bid_def d' by (simp add: fetchone_key_map)
  have fl: "fetch_load d' j
      = map_option (\<lambda>l. if load_id l = ?L then ?set l else l) (fetch_load d j)" for j
    unfolding fetch_load_def d' by (simp add: fetchone_key_update)
  have own: "fetch_bid d (bid_id r) = Some r" if "r \<in> set (bids d)" for r
    unfolding fetch_bid_def using fetchone_key_distinct[OF dB that] .
  have ownl: "fetch_load d (load_id r) = Some r" if "r \<in> set (loads d)" for r
    unfolding fetch_load_def using fetchone_key_distinct[OF dL that] .
  have c2: "fetch_bid d' i = Some (b\<lparr>bid_status := Accepted\<rparr>)"
    by (simp add: fb b accept_row_def bi)
  have c3: "\<forall>r\<in>set (bids d). bid_id r \<noteq> i \<and> bid_load_id r = ?L \<longrightarrow>
            fetch_bid d' (bid_id r) = Some (r\<lparr>bid_status := Rejected\<rparr>)"
    by (simp add: fb own accept_row_def)
  have c4: "\<forall>r\<in>set (bids d). bid_load_id r \<noteq> ?L \<longrightarrow> fetch_bid d' (bid_id r) = Some r"
  proof (intro ballI impI)
    fix r assume r: "r \<in> set (bids d)" and ne: "bid_load_id r \<noteq> ?L"
    have "bid_id r \<noteq> i"
    proof
      assume "bid_id r = i"
      then have "r = b" using own[OF r] b by simp
      with ne show False by simp
    qed
    then show "fetch_bid d' (bid_id r) = Some r"
      using ne by (simp add: fb own[OF r] accept_row_def)
  qed
  have c5: "map bid_id (bids d') = map bid_id (bids d)"
    by (simp add: d')
  have c6: "fetch_load d' ?L = Some (?set l)"
    by (simp add: fl l lid)
  have c7: "\<forall>l'\<in>set (loads d). load_id l' \<noteq> ?L \<longrightarrow> fetch_load d' (load_id l') = Some l'"
    by (simp add: fl ownl)
  have c8: "map load_id (loads d') = map load_id (loads d)"
    by (simp add: d' update_where_def comp_def)
  have c9: "bids_seq d' = bids_seq d"
    by (simp add: d')
  show ?thesis using resp c2 c3 c4 c5 c6 c7 c8 c9 by blast
qed

lemma db_open_facts:
  "pk_ok db_open" "fetch_bid db_open 1 = Some bid1" "fetch_load db_open 1 = Some load1"
  "bid_load_id bid1 = 1" "load_status load1 = Open" "user_id shipper1 = shipper_id load1"
  by (simp_all add: pk_ok_def fetch_bid_def fetch_load_def fetchone_def scenario_defs)

section \<open>The claims\<close>

text \<open>
  C2. Accepting a bid \<open>b\<close> of an open load \<open>l\<close>, as the load's shipper or as an
  administrator, succeeds, and its net effect is exactly: \<open>b\<close> becomes accepted, every other
  bid of the load becomes rejected whatever it was, bids of other loads stay as they
  are, the load becomes assigned to the trucker of \<open>b\<close>, other loads stay as they are,
  and no row is added or removed.
\<close>

theorem accept_bid_open_net_effect:
  assumes pk: "pk_ok d"
    and b: "fetch_bid d i = Some b"
    and l: "fetch_load d (bid_load_id b) = Some l"
    and st: "load_status l = Open"
    and auth: "user_id u = shipper_id l \<or> role u = Admin"
    and res: "accept_bid (Some u) i d = (resp, d')"
  shows "resp = Flash_redirect ''Bid accepted and load assigned.''
     \<and> fetch_bid d' i = Some (b\<lparr>bid_status := Accepted\<rparr>)
     \<and> (\<forall>r\<in>set (bids d). bid_id r \<noteq> i \<and> bid_load_id r = bid_load_id b \<longrightarrow>
            fetch_bid d' (bid_id r) = Some (r\<lparr>bid_status := Rejected\<rparr>))
     \<and> (\<forall>r\<in>set (bids d). bid_load_id r \<noteq> bid_load_id b \<longrightarrow> fetch_bid d' (bid_id r) = Some r)
     \<and> map bid_id (bids d') = map bid_id (bids d)
     \<and> fetch_load d' (bid_load_id b)
         = Some (l\<lparr>load_status := Assigned, trucker_id := Some (bid_trucker_id b)\<rparr>)
     \<and> (\<forall>l'\<in>set (loads d). load_id l' \<noteq> bid_load_id b \<longrightarrow> fetch_load d' (load_id l') = Some l')
     \<and> map load_id (loads d') = map load_id (loads d)
     \<and> bids_seq d' = bids_seq d"
  using accept_bid_effect[OF pk b l auth res] .

theorem accept_bid_open_net_effect_witness:
  "pk_ok db_open \<and> fetch_bid db_open 1 = Some bid1 \<and> fetch_load db_open 1 = Some load1
   \<and> load_status load1 = Open \<and> user_id shipper1 = shipper_id load1
   \<and> fst (accept_bid (Some shipper1) 1 db_open) = Flash_redirect ''Bid accepted and load assigned.''
   \<and> fetch_bid (snd (accept_bid (Some shipper1) 1 db_open)) 1 = Some (bid1\<lparr>bid_status := Accepted\<rparr>)
   \<and> fetch_bid (snd (accept_bid (Some shipper1) 1 db_open)) 2 = Some (bid2\<lparr>bid_status := Rejected\<rparr>)
   \<and> fetch_load (snd (accept_bid (Some shipper1) 1 db_open)) 1
       = Some (load1\<lparr>load_status := Assigned, trucker_id := Some 2\<rparr>)
   \<and> snd (accept_bid (Some shipper1) 1 db_open) = db_assigned"
proof -
  obtain resp d' where res: "accept_bid (Some shipper1) 1 db_open = (resp, d')"
    by (cases "accept_bid (Some shipper1) 1 db_open")
  have l: "fetch_load db_open (bid_load_id bid1) = Some load1"
    using db_open_facts(3) by (simp add: bid1_def)
  have auth: "user_id shipper1 = shipper_id load1 \<or> role shipper1 = Admin"
    by (simp add: db_open_facts)
  note eff = accept_bid_open_net_effect[OF db_open_facts(1) db_open_facts(2) l db_open_facts(5) auth res]
  have b2: "bid2 \<in> set (bids db_open)" by (simp add: db_open_def)
  have r2: "fetch_bid d' 2 = Some (bid2\<lparr>bid_status := Rejected\<rparr>)"
    using eff b2 by (auto simp: bid1_def bid2_def)
  have same: "d' = db_assigned"
    using res by (simp add: accept_bid_def bid_with_shipper_def fetch_bid_def fetch_load_def
        fetchone_def update_where_def scenario_defs)
  show ?thesis using eff r2 same res db_open_facts by (simp add: bid1_def)
qed

lemma db_assigned_facts:
  "pk_ok db_assigned"
  "fetch_bid db_assigned 2 = Some (bid2\<lparr>bid_status := Rejected\<rparr>)"
  "fetch_load db_assigned 1 = Some (load1\<lparr>load_status := Assigned, trucker_id := Some 2\<rparr>)"
  by (simp_all add: pk_ok_def fetch_bid_def fetch_load_def fetchone_def scenario_defs)

lemma accept_bid2_db_assigned:
  "accept_bid (Some u) 2 db_assigned =
     (if user_id u \<noteq> 1 \<and> role u \<noteq> Admin then (Abort 403, db_assigned)
      else (Flash_redirect ''Bid accepted and load assigned.'',
            \<lparr>loads = [load1\<lparr>load_status := Assigned, trucker_id := Some 3\<rparr>],
             bids = [bid1\<lparr>bid_status := Rejected\<rparr>, bid2\<lparr>bid_status := Accepted\<rparr>],
             bids_seq = 2\<rparr>))"
  by (simp add: accept_bid_def bid_with_shipper_def fetch_bid_def fetch_load_def
        fetchone_def update_where_def scenario_defs)

text \<open>
  C1. The specification wants \<^verbatim>\<open>accept_bid\<close> to refuse a bid whose load is not open and
  to change nothing. The handler never reads the load's status. In the scenario, after
  bid 1 was accepted and load 1 assigned to trucker 2, the shipper accepts bid 2: the
  call succeeds, bid 2 becomes accepted, bid 1 rejected, and the load passes to trucker 3.
\<close>

theorem accept_bid_assigned_load_counterexample:
  "fetch_load db_assigned 1 = Some (load1\<lparr>load_status := Assigned, trucker_id := Some 2\<rparr>)
   \<and> fetch_bid db_assigned 2 = Some (bid2\<lparr>bid_status := Rejected\<rparr>)
   \<and> bid_load_id bid2 = 1 \<and> user_id shipper1 = shipper_id load1
   \<and> fst (accept_bid (Some shipper1) 2 db_assigned) = Flash_redirect ''Bid accepted and load assigned.''
   \<and> snd (accept_bid (Some shipper1) 2 db_assigned) \<noteq> db_assigned
   \<and> fetch_load (snd (accept_bid (Some shipper1) 2 db_assigned)) 1
       = Some (load1\<lparr>load_status := Assigned, trucker_id := Some 3\<rparr>)
   \<and> fetch_bid (snd (accept_bid (Some shipper1) 2 db_assigned)) 1
       = Some (bid1\<lparr>bid_status := Rejected\<rparr>)
   \<and> fetch_bid (snd (accept_bid (Some shipper1) 2 db_assigned)) 2
       = Some (bid2\<lparr>bid_status := Accepted\<rparr>)"
  by (simp add: accept_bid2_db_assigned db_assigned_facts)
     (simp add: fetch_bid_def fetch_load_def fetchone_def scenario_defs)

text \<open>
  C1, as the code has it. For a bid \<open>b\<close> whose load is not open, \<^verbatim>\<open>accept_bid\<close> by the
  load's shipper or an administrator succeeds and applies the acceptance again: \<open>b\<close>
  becomes accepted, every other bid of the load rejected, and the load is assigned to
  the trucker of \<open>b\<close>.
\<close>

theorem accept_bid_not_open_reapplies:
  assumes pk: "pk_ok d"
    and b: "fetch_bid d i = Some b"
    and l: "fetch_load d (bid_load_id b) = Some l"
    and st: "load_status l \<noteq> Open"
    and auth: "user_id u = shipper_id l \<or> role u = Admin"
    and res: "accept_bid (Some u) i d = (resp, d')"
  shows "resp = Flash_redirect ''Bid accepted and load assigned.''
     \<and> fetch_bid d' i = Some (b\<lparr>bid_status := Accepted\<rparr>)
     \<and> (\<forall>r\<in>set (bids d). bid_id r \<noteq> i \<and> bid_load_id r = bid_load_id b \<longrightarrow>
            fetch_bid d' (bid_id r) = Some (r\<lparr>bid_status := Rejected\<rparr>))
     \<and> fetch_load d' (bid_load_id b)
         = Some (l\<lparr>load_status := Assigned, trucker_id := Some (bid_trucker_id b)\<rparr>)"
  using accept_bid_effect[OF pk b l auth res] by blast

theorem accept_bid_not_open_reapplies_witness:
  "pk_ok db_assigned
   \<and> fetch_bid db_assigned 2 = Some (bid2\<lparr>bid_status := Rejected\<rparr>)
   \<and> fetch_load db_assigned 1 = Some (load1\<lparr>load_status := Assigned, trucker_id := Some 2\<rparr>)
   \<and> load_status (load1\<lparr>load_status := Assigned, trucker_id := Some 2\<rparr>) \<noteq> Open
   \<and> role admin9 = Admin
   \<and> fst (accept_bid (Some admin9) 2 db_assigned) = Flash_redirect ''Bid accepted and load assigned.''
   \<and> fetch_bid (snd (accept_bid (Some admin9) 2 db_assigned)) 2
       = Some (bid2\<lparr>bid_status := Accepted\<rparr>)
   \<and> fetch_bid (snd (accept_bid (Some admin9) 2 db_assigned)) 1
       = Some (bid1\<lparr>bid_status := Rejected\<rparr>)
   \<and> fetch_load (snd (accept_bid (Some admin9) 2 db_assigned)) 1
       = Some (load1\<lparr>load_status := Assigned, trucker_id := Some 3\<rparr>)"
proof -
  let ?b = "bid2\<lparr>bid_status := Rejected\<rparr>"
  let ?l = "load1\<lparr>load_status := Assigned, trucker_id := Some 2\<rparr>"
  obtain resp d' where res: "accept_bid (Some admin9) 2 db_assigned = (resp, d')"
    by (cases "accept_bid (Some admin9) 2 db_assigned")
  have l: "fetch_load db_assigned (bid_load_id ?b) = Some ?l"
    using db_assigned_facts(3) by (simp add: bid2_def)
  have st: "load_status ?l \<noteq> Open" by simp
  have auth: "user_id admin9 = shipper_id ?l \<or> role admin9 = Admin"
    by (simp add: admin9_def)
  note eff = accept_bid_not_open_reapplies[OF db_assigned_facts(1) db_assigned_facts(2) l st auth res]
  have b1: "bid1\<lparr>bid_status := Accepted\<rparr> \<in> set (bids db_assigned)"
    by (simp add: db_assigned_def)
  have r1: "fetch_bid d' 1 = Some (bid1\<lparr>bid_status := Rejected\<rparr>)"
    using eff b1 by (auto simp: bid1_def bid2_def)
  show ?thesis using eff r1 res db_assigned_facts by (simp add: bid2_def admin9_def)
qed

lemma place_bid_loads: "loads (snd (place_bid s l amt msg d)) = loads d"
  by (simp add: place_bid_def insert_bid_def Let_def split: option.splits)

lemma reject_bid_loads: "loads (snd (reject_bid s i d)) = loads d"
  by (simp add: reject_bid_def split: option.splits prod.splits)

lemma accept_bid_loads:
  "loads (snd (accept_bid s i d)) = loads d \<or>
   (\<exists>l t. loads (snd (accept_bid s i d))
            = update_where (\<lambda>r. load_id r = l)
                (\<lambda>r. r\<lparr>load_status := Assigned, trucker_id := Some t\<rparr>) (loads d))"
  by (auto simp: accept_bid_def Let_def split: option.splits prod.splits)

lemma update_status_loads:
  "loads (snd (update_status s l name d)) = loads d \<or>
   (\<exists>st. parse_status name = Some st \<and>
      loads (snd (update_status s l name d))
        = update_where (\<lambda>r. load_id r = l) (\<lambda>r. r\<lparr>load_status := st\<rparr>) (loads d))"
  by (auto simp: update_status_def split: option.splits)

lemma update_status_success:
  assumes "fetch_load d l = Some row" "user_id u = shipper_id row \<or> role u = Admin"
    "parse_status name = Some st"
  shows "update_status (Some u) l name d =
     (Flash_redirect (''Status updated to '' @ name @ ''.''),
      d\<lparr>loads := update_where (\<lambda>r. load_id r = l) (\<lambda>r. r\<lparr>load_status := st\<rparr>) (loads d)\<rparr>)"
  using assms by (auto simp: update_status_def)

lemma assigned_row_inv:
  "assignee_inv (r\<lparr>load_status := Assigned, trucker_id := Some t\<rparr>)"
  by (simp add: assignee_inv_def has_assignee_status_def)

lemma db_open_inv: "assignee_inv_db db_open"
  by (simp add: assignee_inv_db_def assignee_inv_def has_assignee_status_def scenario_defs)

text \<open>
  C3. The specification wants, for every load and after every operation,
  \<open>trucker_id \<noteq> None\<close> exactly when the status is assigned, in transit or delivered.
  \<^verbatim>\<open>update_status\<close> writes the status column and nothing else: marking the open
  load 1 of the scenario as assigned succeeds and leaves it assigned to nobody.
\<close>

theorem mark_assigned_breaks_assignee_inv_counterexample:
  "assignee_inv_db db_open
   \<and> fst (update_status (Some shipper1) 1 ''assigned'' db_open)
       = Flash_redirect ''Status updated to assigned.''
   \<and> fetch_load (snd (update_status (Some shipper1) 1 ''assigned'' db_open)) 1
       = Some \<lparr>load_id = 1, shipper_id = 1, load_status = Assigned, trucker_id = None\<rparr>
   \<and> \<not> assignee_inv_db (snd (update_status (Some shipper1) 1 ''assigned'' db_open))"
  by (simp add: update_status_def parse_status_def fetch_load_def fetchone_def update_where_def
        assignee_inv_db_def assignee_inv_def has_assignee_status_def scenario_defs)

text \<open>
  C3, as the code has it. From a state where every load satisfies the invariant,
  \<^verbatim>\<open>place_bid\<close>, \<^verbatim>\<open>accept_bid\<close> and \<^verbatim>\<open>reject_bid\<close> keep it, whoever calls them and
  whatever the outcome. A successful \<^verbatim>\<open>update_status\<close> keeps it exactly when the target
  status and the load's current status are on the same side (both among assigned,
  in transit, delivered, or both among open, cancelled).
\<close>

theorem assignee_inv_preserved:
  assumes inv: "assignee_inv_db d"
  shows "assignee_inv_db (snd (place_bid s l amt msg d))
     \<and> assignee_inv_db (snd (accept_bid s i d))
     \<and> assignee_inv_db (snd (reject_bid s i d))
     \<and> (\<forall>row st. pk_ok d \<and> fetch_load d l = Some row \<and> parse_status name = Some st
            \<and> (user_id u = shipper_id row \<or> role u = Admin) \<longrightarrow>
          assignee_inv_db (snd (update_status (Some u) l name d))
            = (has_assignee_status st = has_assignee_status (load_status row)))"
proof -
  have p: "assignee_inv_db (snd (place_bid s l amt msg d))"
    using inv by (simp add: assignee_inv_db_def place_bid_loads)
  have r: "assignee_inv_db (snd (reject_bid s i d))"
    using inv by (simp add: assignee_inv_db_def reject_bid_loads)
  have a: "assignee_inv_db (snd (accept_bid s i d))"
    using accept_bid_loads[of s i d] inv
    by (auto simp: assignee_inv_db_def update_where_def list_all_iff assigned_row_inv)
  have u: "assignee_inv_db (snd (update_status (Some u) l name d))
            = (has_assignee_status st = has_assignee_status (load_status row))"
    if pk: "pk_ok d" and row: "fetch_load d l = Some row" and st: "parse_status name = Some st"
      and auth: "user_id u = shipper_id row \<or> role u = Admin" for row st
  proof -
    have mem: "row \<in> set (loads d)" and rid: "load_id row = l"
      using fetchone_SomeD[OF row[unfolded fetch_load_def]] by simp_all
    have uniq: "r = row" if "r \<in> set (loads d)" "load_id r = l" for r
      using key_unique[of load_id "loads d" l row r] pk row that
      by (simp add: pk_ok_def fetch_load_def)
    have old: "assignee_inv r" if "r \<in> set (loads d)" for r
      using inv that by (simp add: assignee_inv_db_def list_all_iff)
    have new: "assignee_inv (row\<lparr>load_status := st\<rparr>)
         = (has_assignee_status st = has_assignee_status (load_status row))"
      using old[OF mem] by (auto simp: assignee_inv_def)
    have "assignee_inv_db (snd (update_status (Some u) l name d))
        = list_all (\<lambda>r. assignee_inv (if load_id r = l then r\<lparr>load_status := st\<rparr> else r))
            (loads d)"
      by (simp add: update_status_success[OF row auth st] assignee_inv_db_def update_where_def
            list.pred_map comp_def)
    also have "\<dots>
        = (\<forall>r\<in>set (loads d). assignee_inv (if load_id r = l then r\<lparr>load_status := st\<rparr> else r))"
      by (simp only: list_all_iff)
    also have "\<dots> = assignee_inv (row\<lparr>load_status := st\<rparr>)"
      using mem rid uniq old by (metis (full_types))
    finally show ?thesis using new by simp
  qed
  show ?thesis using p a r u by blast
qed


theorem assignee_inv_preserved_witness:
  "assignee_inv_db db_open
   \<and> assignee_inv_db (snd (place_bid (Some admin9) 1 (Some 300) None db_open))
   \<and> assignee_inv_db (snd (accept_bid (Some admin9) 1 db_open))
   \<and> assignee_inv_db (snd (reject_bid (Some admin9) 1 db_open))
   \<and> pk_ok db_open \<and> fetch_load db_open 1 = Some load1
   \<and> parse_status ''cancelled'' = Some Cancelled
   \<and> user_id shipper1 = shipper_id load1
   \<and> has_assignee_status Cancelled = has_assignee_status (load_status load1)
   \<and> assignee_inv_db (snd (update_status (Some shipper1) 1 ''cancelled'' db_open))"
proof -
  note inst = assignee_inv_preserved[OF db_open_inv, where s = "Some admin9" and l = 1
      and amt = "Some 300" and msg = None and i = 1 and name = "''cancelled''" and u = shipper1]
  have ps: "parse_status ''cancelled'' = Some Cancelled"
    by (simp add: parse_status_def)
  have side: "has_assignee_status Cancelled = has_assignee_status (load_status load1)"
    by (simp add: has_assignee_status_def load1_def)
  have "assignee_inv_db (snd (update_status (Some shipper1) 1 ''cancelled'' db_open))"
    using inst ps side db_open_facts(1,3,6) by blast
  then show ?thesis using inst ps side db_open_facts db_open_inv by simp
qed

lemma parse_status_names:
  "parse_status ''open'' = Some Open" "parse_status ''assigned'' = Some Assigned"
  "parse_status ''in_transit'' = Some In_transit" "parse_status ''delivered'' = Some Delivered"
  "parse_status ''cancelled'' = Some Cancelled"
  by (simp_all add: parse_status_def)

lemma parse_status_None_iff:
  "(parse_status name = None)
     = (name \<notin> set [''open'', ''assigned'', ''in_transit'', ''delivered'', ''cancelled''])"
  by (simp add: parse_status_def)

text \<open>
  C4. The specification wants \<^verbatim>\<open>update_status\<close> to refuse every edge outside
  open \<open>\<rightarrow>\<close> assigned \<open>\<rightarrow>\<close> in transit \<open>\<rightarrow>\<close> delivered and the edges from
  open, assigned and in transit to cancelled. The handler tests the target's name only:
  the delivered load of the scenario is set back to open, and the open load is marked
  delivered in one step.
\<close>

theorem update_status_delivered_to_open_counterexample:
  "fetch_load db_delivered 1 = Some (load1\<lparr>load_status := Delivered, trucker_id := Some 2\<rparr>)
   \<and> fst (update_status (Some shipper1) 1 ''open'' db_delivered)
       = Flash_redirect ''Status updated to open.''
   \<and> fetch_load (snd (update_status (Some shipper1) 1 ''open'' db_delivered)) 1
       = Some (load1\<lparr>load_status := Open, trucker_id := Some 2\<rparr>)
   \<and> fetch_load db_open 1 = Some load1 \<and> load_status load1 = Open
   \<and> fst (update_status (Some shipper1) 1 ''delivered'' db_open)
       = Flash_redirect ''Status updated to delivered.''
   \<and> fetch_load (snd (update_status (Some shipper1) 1 ''delivered'' db_open)) 1
       = Some (load1\<lparr>load_status := Delivered\<rparr>)"
  by (simp add: update_status_def parse_status_def fetch_load_def fetchone_def update_where_def
        scenario_defs)

text \<open>
  C4, as the code has it. For an existing load and a caller who is its shipper or an
  administrator, \<^verbatim>\<open>update_status\<close> succeeds for each of the five status names,
  whatever the load's current status, and stores the named status in that load; a name
  that is not one of the five is answered with 400 and changes nothing. Other loads and
  all bids stay as they are.
\<close>

theorem update_status_accepts_every_named_status:
  assumes pk: "pk_ok d"
    and row: "fetch_load d l = Some row"
    and auth: "user_id u = shipper_id row \<or> role u = Admin"
    and res: "update_status (Some u) l name d = (resp, d')"
  shows "parse_status ''open'' = Some Open \<and> parse_status ''assigned'' = Some Assigned
     \<and> parse_status ''in_transit'' = Some In_transit \<and> parse_status ''delivered'' = Some Delivered
     \<and> parse_status ''cancelled'' = Some Cancelled
     \<and> (parse_status name = None)
          = (name \<notin> set [''open'', ''assigned'', ''in_transit'', ''delivered'', ''cancelled''])
     \<and> (parse_status name = None \<longrightarrow> resp = Abort 400 \<and> d' = d)
     \<and> (\<forall>st. parse_status name = Some st \<longrightarrow>
            resp = Flash_redirect (''Status updated to '' @ name @ ''.'')
            \<and> fetch_load d' l = Some (row\<lparr>load_status := st\<rparr>))
     \<and> (\<forall>r\<in>set (loads d). load_id r \<noteq> l \<longrightarrow> fetch_load d' (load_id r) = Some r)
     \<and> map load_id (loads d') = map load_id (loads d)
     \<and> bids d' = bids d \<and> bids_seq d' = bids_seq d"
proof -
  have dL: "distinct (map load_id (loads d))"
    using pk by (simp add: pk_ok_def)
  have rid: "load_id row = l"
    using fetchone_SomeD[OF row[unfolded fetch_load_def]] by simp
  have ownl: "fetch_load d (load_id r) = Some r" if "r \<in> set (loads d)" for r
    unfolding fetch_load_def using fetchone_key_distinct[OF dL that] .
  have bad: "resp = Abort 400 \<and> d' = d" if "parse_status name = None"
    using res that by (simp add: update_status_def)
  have good: "resp = Flash_redirect (''Status updated to '' @ name @ ''.'')
        \<and> d' = d\<lparr>loads := update_where (\<lambda>r. load_id r = l)
                             (\<lambda>r. r\<lparr>load_status := st\<rparr>) (loads d)\<rparr>"
    if "parse_status name = Some st" for st
    using res update_status_success[OF row auth that] by simp
  have fl: "fetch_load d' j = map_option (\<lambda>r. if load_id r = l then r\<lparr>load_status := st\<rparr> else r)
                                (fetch_load d j)"
    if "parse_status name = Some st" for st j
    using good[OF that] by (simp add: fetch_load_def fetchone_key_update)
  have tgt: "fetch_load d' l = Some (row\<lparr>load_status := st\<rparr>)"
    if "parse_status name = Some st" for st
    by (simp add: fl[OF that] row rid)
  have others: "fetch_load d' (load_id r) = Some r"
    if "r \<in> set (loads d)" "load_id r \<noteq> l" for r
  proof (cases "parse_status name")
    case None
    then show ?thesis using bad ownl[OF that(1)] by simp
  next
    case (Some st)
    then show ?thesis using that by (simp add: fl[OF Some] ownl)
  qed
  have ids: "map load_id (loads d') = map load_id (loads d)"
    using bad good by (cases "parse_status name") (auto simp: update_where_def comp_def)
  have frame: "bids d' = bids d \<and> bids_seq d' = bids_seq d"
    using bad good by (cases "parse_status name") auto
  show ?thesis
    using parse_status_names parse_status_None_iff[of name] bad good tgt others ids frame
    by blast
qed

theorem update_status_accepts_every_named_status_witness:
  "pk_ok db_delivered
   \<and> fetch_load db_delivered 1 = Some (load1\<lparr>load_status := Delivered, trucker_id := Some 2\<rparr>)
   \<and> user_id shipper1 = shipper_id (load1\<lparr>load_status := Delivered, trucker_id := Some 2\<rparr>)
   \<and> parse_status ''in_transit'' = Some In_transit
   \<and> fst (update_status (Some shipper1) 1 ''in_transit'' db_delivered)
       = Flash_redirect ''Status updated to in_transit.''
   \<and> fetch_load (snd (update_status (Some shipper1) 1 ''in_transit'' db_delivered)) 1
       = Some (load1\<lparr>load_status := In_transit, trucker_id := Some 2\<rparr>)
   \<and> bids (snd (update_status (Some shipper1) 1 ''in_transit'' db_delivered)) = bids db_delivered"
proof -
  let ?row = "load1\<lparr>load_status := Delivered, trucker_id := Some 2\<rparr>"
  obtain resp d' where res: "update_status (Some shipper1) 1 ''in_transit'' db_delivered = (resp, d')"
    by (cases "update_status (Some shipper1) 1 ''in_transit'' db_delivered")
  have pk: "pk_ok db_delivered"
    by (simp add: pk_ok_def scenario_defs)
  have row: "fetch_load db_delivered 1 = Some ?row"
    by (simp add: fetch_load_def fetchone_def scenario_defs)
  have auth: "user_id shipper1 = shipper_id ?row \<or> role shipper1 = Admin"
    by (simp add: scenario_defs)
  note inst = update_status_accepts_every_named_status[OF pk row auth res]
  show ?thesis using inst res pk row by (simp add: scenario_defs)
qed

text \<open>
  C5. The specification wants \<^verbatim>\<open>place_bid\<close> to refuse a bid on a load that is not open
  (\<^verbatim>\<open>view_load\<close> offers the bid form for open loads only). The handler does not look
  at the load: on the assigned load 1 of the scenario, trucker 4 bids 100 and a new pending
  bid, number 3, is stored.
\<close>

theorem place_bid_on_assigned_load:
  "fetch_load db_assigned 1 = Some (load1\<lparr>load_status := Assigned, trucker_id := Some 2\<rparr>)
   \<and> place_bid (Some trucker4) 1 (Some 100) None db_assigned
       = (Flash_redirect ''Bid submitted.'',
          db_assigned\<lparr>bids := bids db_assigned @
                          [\<lparr>bid_id = 3, bid_load_id = 1, bid_trucker_id = 4, amount = 100,
                            message = None, bid_status = Pending\<rparr>],
                       bids_seq := 3\<rparr>)"
  by (simp add: place_bid_def insert_bid_def next_rowid_def fetch_load_def fetchone_def
        scenario_defs)

lemma count_filter_map_le:
  assumes "\<And>x. x \<in> set xs \<Longrightarrow> P (f x) \<Longrightarrow> Q x"
  shows "length (filter P (map f xs)) \<le> length (filter Q xs)"
  using assms by (induction xs) auto

lemma count_pos_ex: "0 < length (filter P xs) \<Longrightarrow> \<exists>x\<in>set xs. P x"
  by (induction xs) (auto split: if_splits)

lemma one_pending_iff: "one_pending d \<longleftrightarrow> (\<forall>l t. pending_count d l t \<le> 1)"
proof
  assume op: "one_pending d"
  show "\<forall>l t. pending_count d l t \<le> 1"
  proof (intro allI)
    fix l t
    show "pending_count d l t \<le> 1"
    proof (cases "pending_count d l t = 0")
      case True
      then show ?thesis by simp
    next
      case False
      then obtain r where r: "r \<in> set (bids d)" "bid_load_id r = l" "bid_trucker_id r = t"
        using count_pos_ex[of "\<lambda>r. bid_load_id r = l \<and> bid_trucker_id r = t \<and> bid_status r = Pending" "bids d"]
        by (auto simp: pending_count_def)
      then show ?thesis using op by (auto simp: one_pending_def list_all_iff)
    qed
  qed
next
  assume "\<forall>l t. pending_count d l t \<le> 1"
  then show "one_pending d" by (simp add: one_pending_def list_all_iff)
qed

lemma accept_bid_bids:
  "bids (snd (accept_bid s i d)) = bids d \<or>
   (\<exists>l. bids (snd (accept_bid s i d)) = map (accept_row i l) (bids d))"
  by (auto simp: accept_bid_def Let_def accept_updates_rows split: option.splits prod.splits)

lemma reject_bid_bids:
  "bids (snd (reject_bid s i d)) = bids d \<or>
   bids (snd (reject_bid s i d))
     = update_where (\<lambda>r. bid_id r = i) (\<lambda>r. r\<lparr>bid_status := Rejected\<rparr>) (bids d)"
  by (auto simp: reject_bid_def split: option.splits prod.splits)

lemma update_status_bids: "bids (snd (update_status s l name d)) = bids d"
  by (auto simp: update_status_def split: option.splits)

lemma place_bid_pending_exists:
  assumes "0 < pending_count d l (user_id u)"
  shows "snd (place_bid (Some u) l amt msg d) = d
    \<and> ((role u = Trucker \<or> role u = Admin) \<and> amt = Some a \<and> 0 < a \<longrightarrow>
         fst (place_bid (Some u) l amt msg d)
           = Flash_redirect ''You already have a pending bid on this load.'')"
proof -
  let ?P = "\<lambda>r. bid_load_id r = l \<and> bid_trucker_id r = user_id u \<and> bid_status r = Pending"
  have "\<exists>x\<in>set (bids d). ?P x"
    using assms count_pos_ex[of ?P "bids d"] by (simp add: pending_count_def)
  then have "fetchone ?P (bids d) \<noteq> None"
    by (auto simp: fetchone_None_iff)
  then obtain e where e: "fetchone ?P (bids d) = Some e" by blast
  have "snd (place_bid (Some u) l amt msg d) = d"
    using e by (simp add: place_bid_def split: option.splits)
  moreover have "fst (place_bid (Some u) l amt msg d)
           = Flash_redirect ''You already have a pending bid on this load.''"
    if "role u = Trucker \<or> role u = Admin" "amt = Some a" "0 < a"
    using e that by (auto simp: place_bid_def)
  ultimately show ?thesis by blast
qed

lemma place_bid_pending_count:
  assumes "pending_count d l' t \<le> 1"
  shows "pending_count (snd (place_bid s l amt msg d)) l' t \<le> 1"
proof (cases "snd (place_bid s l amt msg d) = d")
  case True
  then show ?thesis using assms by simp
next
  case False
  then obtain u a where s: "s = Some u" and amt: "amt = Some a"
    and none: "fetchone (\<lambda>r. bid_load_id r = l \<and> bid_trucker_id r = user_id u
                              \<and> bid_status r = Pending) (bids d) = None"
    and d': "snd (place_bid s l amt msg d) = insert_bid l (user_id u) a msg d"
    by (auto simp: place_bid_def split: option.splits if_splits)
  have zero: "pending_count d l (user_id u) = 0"
    using none by (auto simp: fetchone_None_iff pending_count_def filter_empty_conv)
  show ?thesis
    using assms zero by (auto simp: d' insert_bid_def Let_def pending_count_def)
qed

lemma accept_bid_pending_count:
  "pending_count (snd (accept_bid s i d)) l t \<le> pending_count d l t"
proof -
  have "length (filter (\<lambda>r. bid_load_id r = l \<and> bid_trucker_id r = t \<and> bid_status r = Pending)
                 (map (accept_row i l') (bids d)))
        \<le> pending_count d l t" for l'
    unfolding pending_count_def
    by (rule count_filter_map_le) (auto simp: accept_row_def split: if_splits)
  then show ?thesis
    using accept_bid_bids[of s i d] by (auto simp: pending_count_def)
qed

lemma reject_bid_pending_count:
  "pending_count (snd (reject_bid s i d)) l t \<le> pending_count d l t"
proof -
  have "length (filter (\<lambda>r. bid_load_id r = l \<and> bid_trucker_id r = t \<and> bid_status r = Pending)
                 (update_where (\<lambda>r. bid_id r = i) (\<lambda>r. r\<lparr>bid_status := Rejected\<rparr>) (bids d)))
        \<le> pending_count d l t"
    unfolding pending_count_def update_where_def
    by (rule count_filter_map_le) (auto split: if_splits)
  then show ?thesis
    using reject_bid_bids[of s i d] by (auto simp: pending_count_def)
qed

lemma handle_pending_count:
  assumes "\<forall>l t. pending_count d l t \<le> 1"
  shows "\<forall>l t. pending_count (snd (handle s q d)) l t \<le> 1"
proof (cases q)
  case (Place_bid l amt msg)
  show ?thesis unfolding Place_bid handle.simps
    using assms place_bid_pending_count by blast
next
  case (Accept_bid i)
  show ?thesis unfolding Accept_bid handle.simps
    using assms accept_bid_pending_count[of s i d] order_trans by blast
next
  case (Reject_bid i)
  show ?thesis unfolding Reject_bid handle.simps
    using assms reject_bid_pending_count[of s i d] order_trans by blast
next
  case (Update_status l name)
  then show ?thesis using assms by (simp add: pending_count_def update_status_bids)
qed

lemma run_pending_count:
  "\<forall>l t. pending_count d l t \<le> 1 \<Longrightarrow> \<forall>l t. pending_count (run reqs d) l t \<le> 1"
proof (induction reqs arbitrary: d)
  case Nil
  then show ?case by simp
next
  case (Cons sq reqs)
  obtain s q where sq: "sq = (s, q)" by (cases sq)
  show ?case using Cons.IH[OF handle_pending_count[OF Cons.prems, of s q]] by (simp add: sq)
qed

lemma db_open_one_pending: "one_pending db_open"
  by (simp add: one_pending_def pending_count_def scenario_defs)

text \<open>
  C6. From a state in which no (load, trucker) pair has more than one pending bid, any
  sequence of requests to the four handlers, under any sessions, leads to a state with
  the same property. In any state, when the caller already has a pending bid on the
  load, \<^verbatim>\<open>place_bid\<close> stores nothing; and when moreover the caller is a trucker or an
  administrator and the amount is positive (the two checks the handler makes first), the
  answer is the flash message of the duplicate bid.
\<close>

theorem one_pending_bid_per_pair:
  assumes "one_pending d"
  shows "(\<forall>l t. pending_count (run reqs d) l t \<le> 1)
     \<and> (0 < pending_count d0 l (user_id u) \<longrightarrow> snd (place_bid (Some u) l amt msg d0) = d0)
     \<and> (0 < pending_count d0 l (user_id u) \<and> (role u = Trucker \<or> role u = Admin)
          \<and> amt = Some a \<and> 0 < a \<longrightarrow>
        fst (place_bid (Some u) l amt msg d0)
          = Flash_redirect ''You already have a pending bid on this load.'')"
  using run_pending_count[of d reqs] assms place_bid_pending_exists[of d0 l u amt msg a]
  by (simp add: one_pending_iff)

theorem one_pending_bid_per_pair_witness:
  "one_pending db_open
   \<and> pending_count (run [(Some trucker2, Place_bid 1 (Some 480) None),
                           (Some trucker4, Place_bid 1 (Some 300) None),
                           (Some shipper1, Reject_bid 1),
                           (Some trucker2, Place_bid 1 (Some 470) None),
                           (Some shipper1, Update_status 1 ''cancelled'')] db_open) 1 2 \<le> 1
   \<and> 0 < pending_count db_open 1 (user_id trucker2)
   \<and> role trucker2 = Trucker \<and> (0::real) < 480
   \<and> place_bid (Some trucker2) 1 (Some 480) None db_open
       = (Flash_redirect ''You already have a pending bid on this load.'', db_open)"
proof -
  note inst = one_pending_bid_per_pair[OF db_open_one_pending,
      where reqs = "[(Some trucker2, Place_bid 1 (Some 480) None),
                     (Some trucker4, Place_bid 1 (Some 300) None),
                     (Some shipper1, Reject_bid 1),
                     (Some trucker2, Place_bid 1 (Some 470) None),
                     (Some shipper1, Update_status 1 ''cancelled'')]"
        and ?d0.0 = db_open and l = 1 and u = trucker2 and amt = "Some 480" and msg = None
        and a = 480]
  have pos: "0 < pending_count db_open 1 (user_id trucker2)"
    by (simp add: pending_count_def scenario_defs)
  have r: "role trucker2 = Trucker" by (simp add: trucker2_def)
  have "place_bid (Some trucker2) 1 (Some 480) None db_open
       = (Flash_redirect ''You already have a pending bid on this load.'', db_open)"
    using inst pos r by (simp add: prod_eq_iff)
  then show ?thesis using inst pos r db_open_one_pending by simp
qed

lemma accepted_inv_iff:
  "accepted_inv d \<longleftrightarrow>
     (\<forall>l. accepted_count d l \<le> 1) \<and>
     (\<forall>r\<in>set (bids d). bid_status r = Accepted \<longrightarrow>
        (\<forall>l\<in>set (loads d). load_id l = bid_load_id r \<longrightarrow>
           trucker_id l = Some (bid_trucker_id r)))"
proof
  assume inv: "accepted_inv d"
  have one: "accepted_count d l \<le> 1" for l
  proof (cases "accepted_count d l = 0")
    case True
    then show ?thesis by simp
  next
    case False
    then obtain r where "r \<in> set (bids d)" "bid_load_id r = l" "bid_status r = Accepted"
      using count_pos_ex[of "\<lambda>r. bid_load_id r = l \<and> bid_status r = Accepted" "bids d"]
      by (auto simp: accepted_count_def)
    then show ?thesis using inv by (auto simp: accepted_inv_def list_all_iff)
  qed
  have own: "\<forall>r\<in>set (bids d). bid_status r = Accepted \<longrightarrow>
        (\<forall>l\<in>set (loads d). load_id l = bid_load_id r \<longrightarrow>
           trucker_id l = Some (bid_trucker_id r))"
    using inv by (auto simp: accepted_inv_def list_all_iff)
  show "(\<forall>l. accepted_count d l \<le> 1) \<and>
     (\<forall>r\<in>set (bids d). bid_status r = Accepted \<longrightarrow>
        (\<forall>l\<in>set (loads d). load_id l = bid_load_id r \<longrightarrow>
           trucker_id l = Some (bid_trucker_id r)))"
    using one own by blast
next
  assume "(\<forall>l. accepted_count d l \<le> 1) \<and>
     (\<forall>r\<in>set (bids d). bid_status r = Accepted \<longrightarrow>
        (\<forall>l\<in>set (loads d). load_id l = bid_load_id r \<longrightarrow>
           trucker_id l = Some (bid_trucker_id r)))"
  then show "accepted_inv d"
    by (auto simp: accepted_inv_def list_all_iff)
qed

lemma place_bid_cases:
  "snd (place_bid s l amt msg d) = d \<or>
   (\<exists>t a. snd (place_bid s l amt msg d) = insert_bid l t a msg d)"
  by (auto simp: place_bid_def split: option.splits)

lemma insert_bid_pk: "pk_ok d \<Longrightarrow> pk_ok (insert_bid l t a m d)"
  using next_rowid_fresh[of "next_rowid (bids_seq d) (map bid_id (bids d))" "map bid_id (bids d)" "bids_seq d"]
  by (auto simp: pk_ok_def insert_bid_def Let_def)

lemma place_bid_accepted:
  assumes "pk_ok d" "accepted_inv d"
  shows "pk_ok (snd (place_bid s l amt msg d)) \<and> accepted_inv (snd (place_bid s l amt msg d))"
proof -
  have "pk_ok (insert_bid l t a msg d) \<and> accepted_inv (insert_bid l t a msg d)" for t a
  proof -
    have c: "accepted_count (insert_bid l t a msg d) l' = accepted_count d l'" for l'
      by (simp add: accepted_count_def insert_bid_def Let_def)
    have "accepted_inv (insert_bid l t a msg d)"
      using assms(2) unfolding accepted_inv_iff c
      by (auto simp: insert_bid_def Let_def)
    then show ?thesis using insert_bid_pk[OF assms(1)] by simp
  qed
  then show ?thesis using place_bid_cases[of s l amt msg d] assms by auto
qed

lemma reject_bid_accepted:
  assumes "pk_ok d" "accepted_inv d"
  shows "pk_ok (snd (reject_bid s i d)) \<and> accepted_inv (snd (reject_bid s i d))"
proof (cases "bids (snd (reject_bid s i d)) = bids d")
  case True
  then show ?thesis using assms
    by (simp add: pk_ok_def accepted_inv_def accepted_count_def reject_bid_loads)
next
  case False
  let ?d' = "snd (reject_bid s i d)"
  let ?f = "\<lambda>r. if bid_id r = i then r\<lparr>bid_status := Rejected\<rparr> else r"
  from False have b': "bids ?d' = map ?f (bids d)"
    using reject_bid_bids[of s i d] by (simp add: update_where_def)
  have l': "loads ?d' = loads d" by (rule reject_bid_loads)
  have pk: "pk_ok ?d'"
    using assms(1) by (simp add: pk_ok_def b' l' comp_def if_distrib cong: if_cong)
  have cnt: "accepted_count ?d' l \<le> accepted_count d l" for l
    unfolding accepted_count_def b'
    by (rule count_filter_map_le) (auto split: if_splits)
  have old: "\<exists>r\<in>set (bids d). r' = r" if "r' \<in> set (bids ?d')" "bid_status r' = Accepted" for r'
    using that by (auto simp: b' split: if_splits)
  have "accepted_inv ?d'"
    unfolding accepted_inv_iff
  proof (intro conjI allI ballI impI)
    fix l show "accepted_count ?d' l \<le> 1"
      using cnt[of l] assms(2) order_trans unfolding accepted_inv_iff by blast
  next
    fix r' l0
    assume "r' \<in> set (bids ?d')" "bid_status r' = Accepted" "l0 \<in> set (loads ?d')"
      "load_id l0 = bid_load_id r'"
    then show "trucker_id l0 = Some (bid_trucker_id r')"
      using old[of r'] assms(2) unfolding accepted_inv_iff l' by blast
  qed
  then show ?thesis using pk by simp
qed

lemma update_status_accepted:
  assumes "pk_ok d" "accepted_inv d"
  shows "pk_ok (snd (update_status s l name d)) \<and> accepted_inv (snd (update_status s l name d))"
proof -
  let ?d' = "snd (update_status s l name d)"
  have b': "bids ?d' = bids d" by (rule update_status_bids)
  have ids: "map load_id (loads ?d') = map load_id (loads d)"
    using update_status_loads[of s l name d]
    by (auto simp: update_where_def comp_def if_distrib cong: if_cong)
  have src: "\<exists>l0\<in>set (loads d). load_id l0 = load_id l' \<and> trucker_id l0 = trucker_id l'"
    if mem: "l' \<in> set (loads ?d')" for l'
  proof (cases "loads ?d' = loads d")
    case True
    then show ?thesis using mem by auto
  next
    case False
    then obtain st where
      "loads ?d' = map (\<lambda>r. if load_id r = l then r\<lparr>load_status := st\<rparr> else r) (loads d)"
      using update_status_loads[of s l name d] by (auto simp: update_where_def)
    then obtain x where x: "x \<in> set (loads d)"
      and l': "l' = (if load_id x = l then x\<lparr>load_status := st\<rparr> else x)"
      using mem by auto
    have "load_id x = load_id l' \<and> trucker_id x = trucker_id l'"
      by (simp add: l')
    then show ?thesis using x by blast
  qed
  have pk: "pk_ok ?d'" using assms(1) by (simp add: pk_ok_def b' ids)
  have c: "accepted_count ?d' l0 = accepted_count d l0" for l0
    by (simp add: accepted_count_def b')
  have "accepted_inv ?d'"
    unfolding accepted_inv_iff c b'
  proof (intro conjI allI ballI impI)
    fix l0 show "accepted_count d l0 \<le> 1"
      using assms(2) unfolding accepted_inv_iff by blast
  next
    fix r l'
    assume r: "r \<in> set (bids d)" "bid_status r = Accepted" and l': "l' \<in> set (loads ?d')"
      "load_id l' = bid_load_id r"
    from src[OF l'(1)] obtain l0 where l0: "l0 \<in> set (loads d)" "load_id l0 = load_id l'"
      "trucker_id l0 = trucker_id l'" by blast
    have "trucker_id l0 = Some (bid_trucker_id r)"
      using assms(2) r l0 l'(2) unfolding accepted_inv_iff by metis
    then show "trucker_id l' = Some (bid_trucker_id r)" using l0 by simp
  qed
  then show ?thesis using pk by simp
qed


lemma accept_bid_cases:
  "snd (accept_bid s i d) = d \<or>
   (\<exists>b. fetch_bid d i = Some b \<and>
      snd (accept_bid s i d)
        = d\<lparr>bids := map (accept_row i (bid_load_id b)) (bids d),
            loads := update_where (\<lambda>l. load_id l = bid_load_id b)
                       (\<lambda>l. l\<lparr>load_status := Assigned, trucker_id := Some (bid_trucker_id b)\<rparr>)
                       (loads d)\<rparr>)"
  by (auto simp: accept_bid_def bid_with_shipper_def Let_def accept_updates_rows
      split: option.splits)

lemma accept_bid_accepted:
  assumes pk: "pk_ok d" and inv: "accepted_inv d"
  shows "pk_ok (snd (accept_bid s i d)) \<and> accepted_inv (snd (accept_bid s i d))"
proof (cases "snd (accept_bid s i d) = d")
  case True
  then show ?thesis using assms by simp
next
  case False
  let ?d' = "snd (accept_bid s i d)"
  from False obtain b where b: "fetch_bid d i = Some b"
    and d': "?d' = d\<lparr>bids := map (accept_row i (bid_load_id b)) (bids d),
            loads := update_where (\<lambda>l. load_id l = bid_load_id b)
                       (\<lambda>l. l\<lparr>load_status := Assigned, trucker_id := Some (bid_trucker_id b)\<rparr>)
                       (loads d)\<rparr>"
    using accept_bid_cases[of s i d] by blast
  let ?L = "bid_load_id b"
  let ?set = "\<lambda>l. l\<lparr>load_status := Assigned, trucker_id := Some (bid_trucker_id b)\<rparr>"
  have dB: "distinct (map bid_id (bids d))"
    using pk by (simp add: pk_ok_def)
  have bi: "bid_id b = i"
    using fetchone_SomeD[OF b[unfolded fetch_bid_def]] by simp
  have uniq: "r = b" if "r \<in> set (bids d)" "bid_id r = i" for r
    using key_unique[OF dB b[unfolded fetch_bid_def] that] .
  have b': "bids ?d' = map (accept_row i ?L) (bids d)"
    and l': "loads ?d' = map (\<lambda>l. if load_id l = ?L then ?set l else l) (loads d)"
    by (simp_all add: d' update_where_def)
  have pk': "pk_ok ?d'"
    using pk by (simp add: pk_ok_def b' l' comp_def if_distrib cong: if_cong)
  have cnt: "accepted_count ?d' l \<le> 1" for l
  proof (cases "l = ?L")
    case True
    have "accepted_count ?d' l \<le> length (filter (\<lambda>r. bid_id r = i) (bids d))"
      unfolding accepted_count_def b'
      by (rule count_filter_map_le) (auto simp: accept_row_def True split: if_splits)
    also have "\<dots> \<le> 1"
      using count_key_le_1[OF dB, of i] by simp
    finally show ?thesis .
  next
    case False
    have "accepted_count ?d' l \<le> accepted_count d l"
      unfolding accepted_count_def b'
    proof (rule count_filter_map_le)
      fix r
      assume r: "r \<in> set (bids d)"
        and acc: "bid_load_id (accept_row i ?L r) = l \<and> bid_status (accept_row i ?L r) = Accepted"
      have "bid_id r \<noteq> i"
      proof
        assume "bid_id r = i"
        then have "r = b" using uniq[OF r] by simp
        then show False using acc False by (simp add: accept_row_def bi)
      qed
      then show "bid_load_id r = l \<and> bid_status r = Accepted"
        using acc by (auto simp: accept_row_def split: if_splits)
    qed
    also have "\<dots> \<le> 1"
      using inv unfolding accepted_inv_iff by blast
    finally show ?thesis .
  qed
  have own: "trucker_id l0' = Some (bid_trucker_id r')"
    if r': "r' \<in> set (bids ?d')" and acc: "bid_status r' = Accepted"
      and l0': "l0' \<in> set (loads ?d')" and same: "load_id l0' = bid_load_id r'" for r' l0'
  proof -
    from r' obtain r where r: "r \<in> set (bids d)" and r'eq: "r' = accept_row i ?L r"
      by (auto simp: b')
    from l0' obtain l0 where l0: "l0 \<in> set (loads d)"
      and l0'eq: "l0' = (if load_id l0 = ?L then ?set l0 else l0)"
      by (auto simp: l')
    show ?thesis
    proof (cases "bid_id r = i")
      case True
      then have rb: "r = b" using uniq[OF r] by simp
      then have "bid_load_id r' = ?L" "bid_trucker_id r' = bid_trucker_id b"
        by (simp_all add: r'eq accept_row_def bi)
      then show ?thesis using same by (auto simp: l0'eq split: if_splits)
    next
      case False
      then have nL: "bid_load_id r \<noteq> ?L" and keep: "r' = r"
        using acc by (auto simp: r'eq accept_row_def split: if_splits)
      then have "load_id l0 \<noteq> ?L" "l0' = l0"
        using same by (auto simp: l0'eq split: if_splits)
      then show ?thesis
        using inv r l0 acc same keep unfolding accepted_inv_iff by metis
    qed
  qed
  have "accepted_inv ?d'"
    unfolding accepted_inv_iff using cnt own by blast
  then show ?thesis using pk' by simp
qed

lemma handle_accepted:
  assumes "pk_ok d" "accepted_inv d"
  shows "pk_ok (snd (handle s q d)) \<and> accepted_inv (snd (handle s q d))"
proof (cases q)
  case (Place_bid l amt msg)
  show ?thesis unfolding Place_bid handle.simps by (rule place_bid_accepted[OF assms])
next
  case (Accept_bid i)
  show ?thesis unfolding Accept_bid handle.simps by (rule accept_bid_accepted[OF assms])
next
  case (Reject_bid i)
  show ?thesis unfolding Reject_bid handle.simps by (rule reject_bid_accepted[OF assms])
next
  case (Update_status l name)
  show ?thesis unfolding Update_status handle.simps by (rule update_status_accepted[OF assms])
qed

lemma run_accepted:
  "pk_ok d \<Longrightarrow> accepted_inv d \<Longrightarrow> pk_ok (run reqs d) \<and> accepted_inv (run reqs d)"
proof (induction reqs arbitrary: d)
  case Nil
  then show ?case by simp
next
  case (Cons sq reqs)
  obtain s q where sq: "sq = (s, q)" by (cases sq)
  have step: "pk_ok (snd (handle s q d)) \<and> accepted_inv (snd (handle s q d))"
    using handle_accepted[OF Cons.prems] .
  show ?case using Cons.IH[of "snd (handle s q d)"] step by (simp add: sq)
qed

lemma db_open_accepted_inv: "accepted_inv db_open"
  by (simp add: accepted_inv_def scenario_defs)

lemma reject_bid_success:
  assumes "fetch_bid d i = Some b" "fetch_load d (bid_load_id b) = Some l"
    "user_id u = shipper_id l \<or> role u = Admin"
  shows "reject_bid (Some u) i d =
     (Flash_redirect ''Bid rejected.'',
      d\<lparr>bids := update_where (\<lambda>r. bid_id r = i) (\<lambda>r. r\<lparr>bid_status := Rejected\<rparr>) (bids d)\<rparr>)"
  using assms by (auto simp: reject_bid_def bid_with_shipper_def)

lemma count_le_1_unique:
  "length (filter P xs) \<le> 1 \<Longrightarrow> x \<in> set xs \<Longrightarrow> y \<in> set xs \<Longrightarrow> P x \<Longrightarrow> P y \<Longrightarrow> x = y"
proof (induction xs)
  case Nil
  then show ?case by simp
next
  case (Cons a xs)
  show ?case
  proof (cases "P a")
    case True
    then have "filter P xs = []" using Cons.prems(1) by simp
    then have "\<forall>z\<in>set xs. \<not> P z" by (simp add: filter_empty_conv)
    then show ?thesis using Cons.prems by auto
  next
    case False
    then show ?thesis using Cons by auto
  qed
qed

text \<open>
  C7. From a state with distinct primary keys in which every accepted bid is the only
  accepted bid of its load and the load names that bid's trucker (in particular from a
  state without accepted bids), any sequence of requests to the four handlers, under any
  sessions, leads to a state where every load has at most one accepted bid and every
  accepted bid's trucker is the \<^verbatim>\<open>trucker_id\<close> of its load.
\<close>

theorem at_most_one_accepted_bid:
  assumes "pk_ok d" and "accepted_inv d"
  shows "(\<forall>l. accepted_count (run reqs d) l \<le> 1)
     \<and> (\<forall>r\<in>set (bids (run reqs d)). bid_status r = Accepted \<longrightarrow>
          (\<forall>l\<in>set (loads (run reqs d)). load_id l = bid_load_id r \<longrightarrow>
             trucker_id l = Some (bid_trucker_id r)))"
  using run_accepted[OF assms, of reqs] unfolding accepted_inv_iff by blast


theorem at_most_one_accepted_bid_witness:
  "pk_ok db_open \<and> accepted_inv db_open
   \<and> accepted_count (run [(Some trucker4, Place_bid 1 (Some 300) None),
                           (Some shipper1, Accept_bid 1),
                           (Some admin9, Accept_bid 2),
                           (Some shipper1, Update_status 1 ''in_transit'')] db_open) 1 \<le> 1
   \<and> fetch_bid (run [(Some trucker4, Place_bid 1 (Some 300) None),
                      (Some shipper1, Accept_bid 1),
                      (Some admin9, Accept_bid 2),
                      (Some shipper1, Update_status 1 ''in_transit'')] db_open) 2
       = Some (bid2\<lparr>bid_status := Accepted\<rparr>)
   \<and> fetch_load (run [(Some trucker4, Place_bid 1 (Some 300) None),
                       (Some shipper1, Accept_bid 1),
                       (Some admin9, Accept_bid 2),
                       (Some shipper1, Update_status 1 ''in_transit'')] db_open) 1
       = Some (load1\<lparr>load_status := In_transit, trucker_id := Some 3\<rparr>)"
proof -
  let ?reqs = "[(Some trucker4, Place_bid 1 (Some 300) None),
                (Some shipper1, Accept_bid 1),
                (Some admin9, Accept_bid 2),
                (Some shipper1, Update_status 1 ''in_transit'')]"
  note inst = at_most_one_accepted_bid[OF db_open_facts(1) db_open_accepted_inv, of ?reqs]
  have final: "run ?reqs db_open =
      \<lparr>loads = [load1\<lparr>load_status := In_transit, trucker_id := Some 3\<rparr>],
       bids = [bid1\<lparr>bid_status := Rejected\<rparr>, bid2\<lparr>bid_status := Accepted\<rparr>,
               \<lparr>bid_id = 3, bid_load_id = 1, bid_trucker_id = 4, amount = 300,
                 message = None, bid_status = Rejected\<rparr>],
       bids_seq = 3\<rparr>"
    by (simp add: place_bid_def insert_bid_def next_rowid_def accept_bid_def reject_bid_def
          update_status_def parse_status_def bid_with_shipper_def fetch_bid_def fetch_load_def
          fetchone_def update_where_def scenario_defs)
  have b2: "fetch_bid (run ?reqs db_open) 2 = Some (bid2\<lparr>bid_status := Accepted\<rparr>)"
    unfolding final by (simp add: fetch_bid_def fetchone_def scenario_defs)
  have l1: "fetch_load (run ?reqs db_open) 1
       = Some (load1\<lparr>load_status := In_transit, trucker_id := Some 3\<rparr>)"
    unfolding final by (simp add: fetch_load_def fetchone_def scenario_defs)
  show ?thesis using inst b2 l1 db_open_facts(1) db_open_accepted_inv by blast
qed

text \<open>
  C8. Rejecting an existing bid \<open>b\<close>, as the shipper of its load or as an administrator,
  succeeds and changes the status of \<open>b\<close> and nothing else: the \<^verbatim>\<open>loads\<close> table is the
  same list as before, the row of \<open>b\<close> differs in its status only, and every row of
  \<^verbatim>\<open>bids\<close> with another id is unchanged, by id and by position.
\<close>

theorem reject_bid_changes_one_status:
  assumes b: "fetch_bid d i = Some b"
    and l: "fetch_load d (bid_load_id b) = Some l"
    and auth: "user_id u = shipper_id l \<or> role u = Admin"
    and res: "reject_bid (Some u) i d = (resp, d')"
  shows "resp = Flash_redirect ''Bid rejected.''
     \<and> loads d' = loads d
     \<and> bids_seq d' = bids_seq d
     \<and> fetch_bid d' i = Some (b\<lparr>bid_status := Rejected\<rparr>)
     \<and> (\<forall>j. j \<noteq> i \<longrightarrow> fetch_bid d' j = fetch_bid d j)
     \<and> length (bids d') = length (bids d)
     \<and> (\<forall>k<length (bids d). bid_id (bids d ! k) \<noteq> i \<longrightarrow> bids d' ! k = bids d ! k)"
proof -
  let ?f = "\<lambda>r. if bid_id r = i then r\<lparr>bid_status := Rejected\<rparr> else r"
  from reject_bid_success[OF b l auth] res
  have resp: "resp = Flash_redirect ''Bid rejected.''"
    and d': "d' = d\<lparr>bids := map ?f (bids d)\<rparr>"
    by (simp_all add: update_where_def)
  have bi: "bid_id b = i"
    using fetchone_SomeD[OF b[unfolded fetch_bid_def]] by simp
  have fb: "fetch_bid d' j = map_option ?f (fetch_bid d j)" for j
    unfolding fetch_bid_def d' by (simp add: fetchone_key_map)
  have tgt: "fetch_bid d' i = Some (b\<lparr>bid_status := Rejected\<rparr>)"
    by (simp add: fb b bi)
  have others: "fetch_bid d' j = fetch_bid d j" if "j \<noteq> i" for j
  proof (cases "fetch_bid d j")
    case None
    then show ?thesis by (simp add: fb)
  next
    case (Some r)
    then have "bid_id r = j"
      using fetchone_SomeD[of "\<lambda>r. bid_id r = j" "bids d" r] by (simp add: fetch_bid_def)
    then show ?thesis using that Some by (simp add: fb)
  qed
  have pos: "\<forall>k<length (bids d). bid_id (bids d ! k) \<noteq> i \<longrightarrow> bids d' ! k = bids d ! k"
    by (simp add: d')
  show ?thesis using resp tgt others pos by (simp add: d')
qed

theorem reject_bid_changes_one_status_witness:
  "fetch_bid db_open 2 = Some bid2 \<and> fetch_load db_open (bid_load_id bid2) = Some load1
   \<and> user_id shipper1 = shipper_id load1
   \<and> fst (reject_bid (Some shipper1) 2 db_open) = Flash_redirect ''Bid rejected.''
   \<and> loads (snd (reject_bid (Some shipper1) 2 db_open)) = loads db_open
   \<and> fetch_bid (snd (reject_bid (Some shipper1) 2 db_open)) 2
       = Some (bid2\<lparr>bid_status := Rejected\<rparr>)
   \<and> fetch_bid (snd (reject_bid (Some shipper1) 2 db_open)) 1 = Some bid1"
proof -
  obtain resp d' where res: "reject_bid (Some shipper1) 2 db_open = (resp, d')"
    by (cases "reject_bid (Some shipper1) 2 db_open")
  have b: "fetch_bid db_open 2 = Some bid2"
    by (simp add: fetch_bid_def fetchone_def scenario_defs)
  have l: "fetch_load db_open (bid_load_id bid2) = Some load1"
    by (simp add: fetch_load_def fetchone_def scenario_defs)
  have auth: "user_id shipper1 = shipper_id load1 \<or> role shipper1 = Admin"
    by (simp add: scenario_defs)
  note inst = reject_bid_changes_one_status[OF b l auth res]
  have one: "fetch_bid d' 1 = Some bid1"
    using inst db_open_facts(2) by simp
  show ?thesis using inst one res b l db_open_facts(6) by simp
qed

text \<open>
  C10. \<^verbatim>\<open>reject_bid\<close> does not look at the bid's status: for an existing bid of any
  status and an authorised caller it succeeds and the bid is rejected afterwards, its
  load untouched. In particular, where the bid was the accepted one of an assigned
  load, the load still names the bid's trucker and has no accepted bid left.
\<close>

theorem reject_bid_any_status:
  assumes b: "fetch_bid d i = Some b"
    and l: "fetch_load d (bid_load_id b) = Some l"
    and auth: "user_id u = shipper_id l \<or> role u = Admin"
    and res: "reject_bid (Some u) i d = (resp, d')"
  shows "resp = Flash_redirect ''Bid rejected.''
     \<and> fetch_bid d' i = Some (b\<lparr>bid_status := Rejected\<rparr>)
     \<and> fetch_load d' (bid_load_id b) = Some l
     \<and> (accepted_inv d \<and> bid_status b = Accepted \<and> load_status l = Assigned \<longrightarrow>
          trucker_id l = Some (bid_trucker_id b)
          \<and> accepted_count d' (bid_load_id b) = 0)"
proof -
  let ?f = "\<lambda>r. if bid_id r = i then r\<lparr>bid_status := Rejected\<rparr> else r"
  let ?A = "\<lambda>r. bid_load_id r = bid_load_id b \<and> bid_status r = Accepted"
  from reject_bid_success[OF b l auth] res
  have resp: "resp = Flash_redirect ''Bid rejected.''"
    and d': "d' = d\<lparr>bids := map ?f (bids d)\<rparr>"
    by (simp_all add: update_where_def)
  have bi: "bid_id b = i" and bmem: "b \<in> set (bids d)"
    using fetchone_SomeD[OF b[unfolded fetch_bid_def]] by simp_all
  have lmem: "l \<in> set (loads d)" and lid: "load_id l = bid_load_id b"
    using fetchone_SomeD[OF l[unfolded fetch_load_def]] by simp_all
  have tgt: "fetch_bid d' i = Some (b\<lparr>bid_status := Rejected\<rparr>)"
    unfolding fetch_bid_def d' using b by (simp add: fetchone_key_map fetch_bid_def bi)
  have ld: "fetch_load d' (bid_load_id b) = Some l"
    using l by (simp add: fetch_load_def d')
  have part: "trucker_id l = Some (bid_trucker_id b) \<and> accepted_count d' (bid_load_id b) = 0"
    if inv: "accepted_inv d" and acc: "bid_status b = Accepted"
  proof -
    have t: "trucker_id l = Some (bid_trucker_id b)"
      using inv bmem acc lmem lid unfolding accepted_inv_iff by blast
    have le: "length (filter ?A (bids d)) \<le> 1"
      using inv unfolding accepted_inv_iff accepted_count_def by blast
    have none: "\<not> ?A (?f r)" if r: "r \<in> set (bids d)" for r
    proof
      assume a: "?A (?f r)"
      then have ne: "bid_id r \<noteq> i" and ar: "?A r"
        by (auto split: if_splits)
      have "r = b"
        using count_le_1_unique[OF le r bmem ar] acc by simp
      then show False using ne bi by simp
    qed
    have "\<forall>x\<in>set (map ?f (bids d)). \<not> ?A x"
    proof
      fix x assume "x \<in> set (map ?f (bids d))"
      then obtain r where "r \<in> set (bids d)" "x = ?f r" by auto
      then show "\<not> ?A x" using none[of r] by simp
    qed
    then have "filter ?A (map ?f (bids d)) = []"
      by (simp only: filter_empty_conv)
    then have "accepted_count d' (bid_load_id b) = 0"
      by (simp add: accepted_count_def d')
    then show ?thesis using t by simp
  qed
  show ?thesis using resp tgt ld part by blast
qed

theorem reject_bid_any_status_witness:
  "fetch_bid db_assigned 1 = Some (bid1\<lparr>bid_status := Accepted\<rparr>)
   \<and> fetch_load db_assigned 1 = Some (load1\<lparr>load_status := Assigned, trucker_id := Some 2\<rparr>)
   \<and> accepted_inv db_assigned
   \<and> fst (reject_bid (Some shipper1) 1 db_assigned) = Flash_redirect ''Bid rejected.''
   \<and> fetch_bid (snd (reject_bid (Some shipper1) 1 db_assigned)) 1
       = Some (bid1\<lparr>bid_status := Rejected\<rparr>)
   \<and> fetch_load (snd (reject_bid (Some shipper1) 1 db_assigned)) 1
       = Some (load1\<lparr>load_status := Assigned, trucker_id := Some 2\<rparr>)
   \<and> accepted_count (snd (reject_bid (Some shipper1) 1 db_assigned)) 1 = 0"
proof -
  let ?b = "bid1\<lparr>bid_status := Accepted\<rparr>"
  let ?l = "load1\<lparr>load_status := Assigned, trucker_id := Some 2\<rparr>"
  obtain resp d' where res: "reject_bid (Some shipper1) 1 db_assigned = (resp, d')"
    by (cases "reject_bid (Some shipper1) 1 db_assigned")
  have b: "fetch_bid db_assigned 1 = Some ?b"
    by (simp add: fetch_bid_def fetchone_def scenario_defs)
  have l: "fetch_load db_assigned (bid_load_id ?b) = Some ?l"
    by (simp add: fetch_load_def fetchone_def scenario_defs)
  have auth: "user_id shipper1 = shipper_id ?l \<or> role shipper1 = Admin"
    by (simp add: scenario_defs)
  have inv: "accepted_inv db_assigned"
    by (simp add: accepted_inv_def accepted_count_def scenario_defs)
  note inst = reject_bid_any_status[OF b l auth res]
  have lid: "bid_load_id ?b = 1" by (simp add: bid1_def)
  have zero: "accepted_count d' 1 = 0"
    using inst inv lid by simp
  show ?thesis using inst zero res b db_assigned_facts(3) inv lid by simp
qed

end
